theory Spec2Isabelle
  imports Main "HOL-Library.Word" "HOL-Library.Signed_Division" "HOL-Library.Log_Nat"
    "HOL-Library.Multiset"
begin

section \<open>Strings and numbers of the host language\<close>

text \<open>
  The decoding engine (server routes file) is TypeScript. A string there is a sequence of
  16-bit code units; regular expressions without the \<open>u\<close> flag, \<open>charCodeAt\<close>,
  \<open>substr\<close>, \<open>length\<close> and \<open>String.fromCharCode\<close> all work on code units.
\<close>

type_synonym jsstring = "16 word list"

text \<open>Literals of the theory are written as ASCII strings and read as code units.\<close>

definition js :: "string \<Rightarrow> jsstring" where
  "js s = map of_char s"

text \<open>
  The character classes used by the source: \<open>\d\<close> is \<open>[0-9]\<close>; \<open>\s\<close> is the
  ECMAScript white space and line terminator set, which is also what \<open>parseInt\<close> skips
  at the start of its argument.
\<close>

definition isDigit :: "16 word \<Rightarrow> bool" where
  "isDigit c \<longleftrightarrow> 0x30 \<le> c \<and> c \<le> 0x39"

definition isWhiteSpace :: "16 word \<Rightarrow> bool" where
  "isWhiteSpace c \<longleftrightarrow>
     c \<in> set [0x09, 0x0A, 0x0B, 0x0C, 0x0D, 0x20, 0xA0, 0x1680,
                0x2028, 0x2029, 0x202F, 0x205F, 0x3000, 0xFEFF]
     \<or> (0x2000 \<le> c \<and> c \<le> 0x200A)"

definition isUpper :: "16 word \<Rightarrow> bool" where
  "isUpper c \<longleftrightarrow> 0x41 \<le> c \<and> c \<le> 0x5A"

definition isLower :: "16 word \<Rightarrow> bool" where
  "isLower c \<longleftrightarrow> 0x61 \<le> c \<and> c \<le> 0x7A"

definition isLetter :: "16 word \<Rightarrow> bool" where
  "isLetter c \<longleftrightarrow> isLower c \<or> isUpper c"

text \<open>
  A number is an IEEE double. The engine only meets integral values, infinities and
  NaN (from \<open>parseInt\<close>, character codes and integer shifts), so a number is modelled
  as one of those; \<open>nearest_double\<close>
  rounds a natural number to the nearest double (ties to even, 53 significant bits), and
  gives \<open>None\<close> where the result overflows to infinity. Negative zero is identified with
  zero: \<open>ToUint16\<close> maps both to 0, and sums and remainders do not tell them apart
  in what it receives.
\<close>

datatype number = NaN | PosInfinity | NegInfinity | Finite int

definition nearest_double :: "nat \<Rightarrow> nat option" where
  "nearest_double n =
     (if n < 2 ^ 53 then Some n
      else
        let e = floorlog 2 n - 53;
            q = n div 2 ^ e;
            r = n mod 2 ^ e;
            h = 2 ^ (e - 1);
            q' = (if h < r \<or> (r = h \<and> odd q) then q + 1 else q)
        in if 2 ^ 1024 \<le> q' * 2 ^ e then None else Some (q' * 2 ^ e))"

definition number_of_int :: "int \<Rightarrow> number" where
  "number_of_int k =
     (case nearest_double (nat \<bar>k\<bar>) of
        None \<Rightarrow> (if k < 0 then NegInfinity else PosInfinity)
      | Some m \<Rightarrow> Finite (sgn k * int m))"

text \<open>
  The arithmetic of doubles on these values. A sum is the exact sum rounded to the
  nearest double; infinities absorb finite values and cancel to NaN; \<open>x - y\<close> is
  \<open>x + (- y)\<close>. The remainder \<open>%\<close> is that of truncating division (its sign is the
  dividend's, \<open>smod\<close>) and is exact; it is NaN for an infinite dividend or a zero
  divisor, and the dividend itself for an infinite divisor.
\<close>

fun number_plus :: "number \<Rightarrow> number \<Rightarrow> number" where
  "number_plus (Finite a) (Finite b) = number_of_int (a + b)"
| "number_plus NaN y = NaN"
| "number_plus x NaN = NaN"
| "number_plus PosInfinity NegInfinity = NaN"
| "number_plus NegInfinity PosInfinity = NaN"
| "number_plus PosInfinity y = PosInfinity"
| "number_plus x PosInfinity = PosInfinity"
| "number_plus NegInfinity y = NegInfinity"
| "number_plus x NegInfinity = NegInfinity"

fun number_negate :: "number \<Rightarrow> number" where
  "number_negate (Finite a) = Finite (- a)"
| "number_negate PosInfinity = NegInfinity"
| "number_negate NegInfinity = PosInfinity"
| "number_negate NaN = NaN"

definition number_minus :: "number \<Rightarrow> number \<Rightarrow> number" where
  "number_minus x y = number_plus x (number_negate y)"

fun number_rem :: "number \<Rightarrow> number \<Rightarrow> number" where
  "number_rem (Finite a) (Finite b) = (if b = 0 then NaN else Finite (a smod b))"
| "number_rem (Finite a) PosInfinity = Finite a"
| "number_rem (Finite a) NegInfinity = Finite a"
| "number_rem x y = NaN"

text \<open>
  \<open>String.fromCharCode(x)\<close> applies \<open>ToUint16\<close>: NaN and the infinities become 0, any
  other value is reduced modulo \<open>2 ^ 16\<close>.
\<close>

definition ToUint16 :: "number \<Rightarrow> 16 word" where
  "ToUint16 x = (case x of Finite k \<Rightarrow> word_of_int k | _ \<Rightarrow> 0)"

definition fromCharCode :: "number \<Rightarrow> 16 word" where
  "fromCharCode x = ToUint16 x"

subsection \<open>parseInt\<close>

text \<open>
  \<open>parseInt(string, radix)\<close> after ECMA-262: skip leading white space, read an optional
  sign, strip a \<open>0x\<close>/\<open>0X\<close> prefix when the radix is absent or 16, take the longest
  prefix of digits of the radix, and return NaN when that prefix is empty. It never
  throws. An absent radix is passed as 0 (\<open>ToInt32(undefined)\<close>).
\<close>

definition digitValue :: "16 word \<Rightarrow> nat option" where
  "digitValue c =
     (if isDigit c then Some (unat c - 48)
      else if isLower c then Some (unat c - 87)
      else if isUpper c then Some (unat c - 55)
      else None)"

definition isRadixDigit :: "nat \<Rightarrow> 16 word \<Rightarrow> bool" where
  "isRadixDigit R c = (case digitValue c of None \<Rightarrow> False | Some d \<Rightarrow> d < R)"

definition mathInt :: "nat \<Rightarrow> jsstring \<Rightarrow> nat" where
  "mathInt R Z = foldl (\<lambda>a c. a * R + (case digitValue c of None \<Rightarrow> 0 | Some d \<Rightarrow> d)) 0 Z"

definition parseInt :: "jsstring \<Rightarrow> nat \<Rightarrow> number" where
  "parseInt input radix =
     (let S0 = dropWhile isWhiteSpace input;
          negative = (S0 \<noteq> [] \<and> hd S0 = 0x2D);
          S1 = (if S0 \<noteq> [] \<and> (hd S0 = 0x2B \<or> hd S0 = 0x2D) then tl S0 else S0)
      in if radix \<noteq> 0 \<and> (radix < 2 \<or> 36 < radix) then NaN
         else
           let stripPrefix = (radix = 0 \<or> radix = 16);
               hasPrefix = (stripPrefix \<and> (take 2 S1 = [0x30, 0x78] \<or> take 2 S1 = [0x30, 0x58]));
               S2 = (if hasPrefix then drop 2 S1 else S1);
               R = (if hasPrefix then 16 else if radix = 0 then 10 else radix);
               Z = takeWhile (isRadixDigit R) S2
           in if Z = [] then NaN
              else number_of_int ((if negative then - 1 else 1) * int (mathInt R Z)))"

section \<open>The decoders\<close>

text \<open>
  A decoder either returns the decoded string or throws an \<open>Error\<close> whose message names
  the decoder; the thrown errors are the values of \<open>error\<close>, and a decoder returns
  \<open>error + jsstring\<close>.
\<close>

datatype error = DecimalError | HexError | Base64Error | URLError | UnsupportedType

definition substr :: "jsstring \<Rightarrow> nat \<Rightarrow> nat \<Rightarrow> jsstring" where
  "substr s start len = take len (drop start s)"

subsection \<open>decryptHex\<close>

text \<open>
  The loop \<open>for (let i = 0; i < cleanHex.length; i += 2)\<close> appends one character per
  round, read from \<open>cleanHex.substr(i, 2)\<close>. Nothing in the \<open>try\<close> block can throw
  (\<open>replace\<close>, \<open>substr\<close>, \<open>parseInt\<close> and \<open>String.fromCharCode\<close> are total on these
  arguments), so the \<open>catch\<close> branch that would raise \<open>HexError\<close> is never taken.
\<close>

function decryptHex_loop :: "jsstring \<Rightarrow> nat \<Rightarrow> jsstring \<Rightarrow> jsstring" where
  "decryptHex_loop cleanHex i result =
     (if i < length cleanHex
      then decryptHex_loop cleanHex (i + 2)
             (result @ [fromCharCode (parseInt (substr cleanHex i 2) 16)])
      else result)"
  by pat_completeness auto
termination
  by (relation "measure (\<lambda>(cleanHex, i, result). length cleanHex - i)") auto

declare decryptHex_loop.simps [simp del]

definition decryptHex :: "jsstring \<Rightarrow> error + jsstring" where
  "decryptHex text =
     (let cleanHex = filter (\<lambda>c. \<not> isWhiteSpace c) text
      in Inr (decryptHex_loop cleanHex 0 []))"

subsection \<open>decryptDecimal\<close>

definition backslash :: "16 word" where
  "backslash = 0x5C"

text \<open>
  \<open>text.split(sep)\<close> with a one-character separator: the fragments between the
  separators, empty ones included; the empty string splits into one empty fragment.
\<close>

fun split :: "jsstring \<Rightarrow> 16 word \<Rightarrow> jsstring list" where
  "split [] sep = [[]]"
| "split (c # cs) sep =
     (if c = sep then [] # split cs sep
      else (case split cs sep of [] \<Rightarrow> [[c]] | f # fs \<Rightarrow> (c # f) # fs))"

text \<open>
  \<open>filter(Boolean)\<close> drops the empty fragments; each remaining fragment goes through
  \<open>parseInt\<close> with no radix and \<open>String.fromCharCode\<close>, and the one-character results
  are joined. As in \<open>decryptHex\<close>, no call in the \<open>try\<close> block throws, so
  \<open>DecimalError\<close> is never raised.
\<close>

definition decryptDecimal :: "jsstring \<Rightarrow> error + jsstring" where
  "decryptDecimal text =
     (let numbers = filter (\<lambda>fragment. fragment \<noteq> []) (split text backslash)
      in Inr (map (\<lambda>num. fromCharCode (parseInt num 0)) numbers))"

subsection \<open>decryptCaesar and decryptROT13\<close>

text \<open>
  \<open>text.replace(/[a-zA-Z]/g, f)\<close> rewrites every ASCII letter by \<open>f\<close> and keeps all
  other code units. The shift is a number: an integer shift \<open>k\<close> reaches the decoder
  as the double nearest to \<open>k\<close> (\<open>number_of_int k\<close>, which is \<open>k\<close> itself below
  \<open>2 ^ 53\<close>), and \<open>char.charCodeAt(0) - start - shift + 26\<close>, \<open>% 26\<close> and \<open>+ start\<close>
  are computed from left to right in doubles. An absent shift (\<open>None\<close>) takes the
  default 3. Shifts that are not integers are not covered.
\<close>

definition decryptCaesar :: "jsstring \<Rightarrow> int option \<Rightarrow> jsstring" where
  "decryptCaesar text shift_arg =
     (let shift = (case shift_arg of None \<Rightarrow> Finite 3 | Some k \<Rightarrow> number_of_int k)
      in map (\<lambda>char.
           if isLetter char
           then (let start = (if char \<le> 0x5A then Finite 65 else Finite 97)
                 in fromCharCode
                      (number_plus
                         (number_rem
                            (number_plus
                               (number_minus (number_minus (Finite (uint char)) start) shift)
                               (Finite 26))
                            (Finite 26))
                         start))
           else char) text)"

definition decryptROT13 :: "jsstring \<Rightarrow> jsstring" where
  "decryptROT13 text = decryptCaesar text (Some 13)"

text \<open>
  For comparison, the spec's words for the Caesar decoder, not taken from the source:
  a letter moves backward by \<open>k\<close> positions within the 26 letters of its own case,
  wrapping modulo 26 (the mathematical \<open>mod\<close>); any other code unit is kept.
\<close>

definition shift_back :: "int \<Rightarrow> 16 word \<Rightarrow> 16 word" where
  "shift_back k c =
     (if isUpper c then word_of_int (65 + (uint c - 65 - k) mod 26)
      else if isLower c then word_of_int (97 + (uint c - 97 - k) mod 26)
      else c)"

subsection \<open>decryptBase64 and decryptURL\<close>

text \<open>
  These two decoders only call the runtime: \<open>Buffer.from(text, 'base64')\<close>,
  \<open>Buffer.toString('utf8')\<close> and \<open>decodeURIComponent\<close>. The runtime is not part of the
  repository, so it is a parameter of the model. Its types record what Node.js
  documents: decoding base64 from a string returns a buffer for every string
  (characters outside the alphabet are skipped, decoding stops at padding), decoding a
  buffer as UTF-8 returns a string for every buffer (invalid sequences become U+FFFD),
  and \<open>decodeURIComponent\<close> either returns a string or throws \<open>URIError\<close> (\<open>None\<close>).
  So the \<open>catch\<close> branch of \<open>decryptBase64\<close>, which would raise \<open>Base64Error\<close>, is
  never taken, while that of \<open>decryptURL\<close> turns a \<open>URIError\<close> into \<open>URLError\<close>.
\<close>

record platform =
  Buffer_from_base64 :: "jsstring \<Rightarrow> 8 word list"
  toString_utf8 :: "8 word list \<Rightarrow> jsstring"
  decodeURIComponent :: "jsstring \<Rightarrow> jsstring option"

definition decryptBase64 :: "platform \<Rightarrow> jsstring \<Rightarrow> error + jsstring" where
  "decryptBase64 P text = Inr (toString_utf8 P (Buffer_from_base64 P text))"

definition decryptURL :: "platform \<Rightarrow> jsstring \<Rightarrow> error + jsstring" where
  "decryptURL P text =
     (case decodeURIComponent P text of
        None \<Rightarrow> Inl URLError
      | Some decoded \<Rightarrow> Inr decoded)"

section \<open>The classifier\<close>

subsection \<open>Regular expressions\<close>

text \<open>
  The classifier's patterns are built from character classes, concatenation, \<open>?\<close>,
  \<open>+\<close> and \<open>*\<close>, and are anchored at both ends (\<open>^\<close> ... \<open>$\<close>, no \<open>m\<close> flag), so
  \<open>test\<close> asks whether the whole string belongs to the pattern's language. The model
  keeps the patterns as data and decides membership by derivatives.
\<close>

datatype atom = Chr "16 word" | CharRange "16 word" "16 word" | Digit | Space

fun atom_matches :: "atom \<Rightarrow> 16 word \<Rightarrow> bool" where
  "atom_matches (Chr a) c \<longleftrightarrow> c = a"
| "atom_matches (CharRange lo hi) c \<longleftrightarrow> lo \<le> c \<and> c \<le> hi"
| "atom_matches Digit c \<longleftrightarrow> isDigit c"
| "atom_matches Space c \<longleftrightarrow> isWhiteSpace c"

definition class_matches :: "atom list \<Rightarrow> 16 word \<Rightarrow> bool" where
  "class_matches as c = list_ex (\<lambda>a. atom_matches a c) as"

datatype regex =
    Fail
  | Epsilon
  | Class "atom list"
  | Alt regex regex
  | Seq regex regex
  | Star regex

definition Plus :: "regex \<Rightarrow> regex" where
  "Plus r = Seq r (Star r)"

definition Opt :: "regex \<Rightarrow> regex" where
  "Opt r = Alt r Epsilon"

fun nullable :: "regex \<Rightarrow> bool" where
  "nullable Fail = False"
| "nullable Epsilon = True"
| "nullable (Class as) = False"
| "nullable (Alt r s) = (nullable r \<or> nullable s)"
| "nullable (Seq r s) = (nullable r \<and> nullable s)"
| "nullable (Star r) = True"

fun deriv :: "16 word \<Rightarrow> regex \<Rightarrow> regex" where
  "deriv c Fail = Fail"
| "deriv c Epsilon = Fail"
| "deriv c (Class as) = (if class_matches as c then Epsilon else Fail)"
| "deriv c (Alt r s) = Alt (deriv c r) (deriv c s)"
| "deriv c (Seq r s) =
     (if nullable r then Alt (Seq (deriv c r) s) (deriv c s) else Seq (deriv c r) s)"
| "deriv c (Star r) = Seq (deriv c r) (Star r)"

fun test :: "regex \<Rightarrow> jsstring \<Rightarrow> bool" where
  "test r [] = nullable r"
| "test r (c # cs) = test (deriv c r) cs"

text \<open>The language of a pattern, for the proofs about \<open>test\<close>.\<close>

definition conc :: "jsstring set \<Rightarrow> jsstring set \<Rightarrow> jsstring set" where
  "conc A B = {u @ v | u v. u \<in> A \<and> v \<in> B}"

inductive_set star :: "jsstring set \<Rightarrow> jsstring set" for A :: "jsstring set" where
  star_empty: "[] \<in> star A"
| star_step: "u \<in> A \<Longrightarrow> v \<in> star A \<Longrightarrow> u @ v \<in> star A"

fun lang :: "regex \<Rightarrow> jsstring set" where
  "lang Fail = {}"
| "lang Epsilon = {[]}"
| "lang (Class as) = {[c] | c. class_matches as c}"
| "lang (Alt r s) = lang r \<union> lang s"
| "lang (Seq r s) = conc (lang r) (lang s)"
| "lang (Star r) = star (lang r)"

subsection \<open>detectEncryptionType\<close>

text \<open>
  The four patterns of the source, in its order:
  \<^verbatim>\<open>^\\?\d+(\\?\d+)*$\<close>, \<^verbatim>\<open>^[0-9a-fA-F\s]+$\<close>, \<^verbatim>\<open>^[A-Za-z0-9+/]+=*$\<close> and
  \<^verbatim>\<open>^[A-Za-z0-9%\-_.~]+$\<close>.
\<close>

definition decimal_regex :: regex where
  "decimal_regex =
     Seq (Opt (Class [Chr backslash]))
       (Seq (Plus (Class [Digit]))
          (Star (Seq (Opt (Class [Chr backslash])) (Plus (Class [Digit])))))"

definition hex_class :: "atom list" where
  "hex_class =
     [CharRange (of_char CHR ''0'') (of_char CHR ''9''),
      CharRange (of_char CHR ''a'') (of_char CHR ''f''),
      CharRange (of_char CHR ''A'') (of_char CHR ''F''), Space]"

definition hex_regex :: regex where
  "hex_regex = Plus (Class hex_class)"

definition base64_class :: "atom list" where
  "base64_class =
     [CharRange (of_char CHR ''A'') (of_char CHR ''Z''),
      CharRange (of_char CHR ''a'') (of_char CHR ''z''),
      CharRange (of_char CHR ''0'') (of_char CHR ''9''),
      Chr (of_char CHR ''+''), Chr (of_char CHR ''/'')]"

definition base64_regex :: regex where
  "base64_regex = Seq (Plus (Class base64_class)) (Star (Class [Chr (of_char CHR ''='')]))"

definition url_class :: "atom list" where
  "url_class =
     [CharRange (of_char CHR ''A'') (of_char CHR ''Z''),
      CharRange (of_char CHR ''a'') (of_char CHR ''z''),
      CharRange (of_char CHR ''0'') (of_char CHR ''9''),
      Chr (of_char CHR ''%''), Chr (of_char CHR ''-''), Chr (of_char CHR ''_''),
      Chr (of_char CHR ''.''), Chr (of_char CHR ''~'')]"

definition url_regex :: regex where
  "url_regex = Plus (Class url_class)"

text \<open>
  The labels are the strings the source returns and compares. \<open>text.replace(/\\/g, '')\<close>
  removes every backslash; \<open>text.includes('%')\<close> looks for a percent sign.
\<close>

definition detectEncryptionType :: "jsstring \<Rightarrow> string" where
  "detectEncryptionType text =
     (if test decimal_regex (filter (\<lambda>c. c \<noteq> backslash) text) then ''decimal''
      else if test hex_regex text \<and> length text mod 2 = 0 then ''hex''
      else if test base64_regex text \<and> length text mod 4 = 0 then ''base64''
      else if of_char CHR ''%'' \<in> set text \<and> test url_regex text then ''url''
      else ''caesar'')"

section \<open>The dispatcher\<close>

record decryption =
  decoded :: jsstring
  detectedType :: string

text \<open>
  \<open>performDecryption\<close> resolves \<open>auto\<close> through the classifier, runs the decoder of
  the resolved label and throws \<open>UnsupportedType\<close> for any other label. Only the
  \<open>caesar\<close> branch passes the shift on.
\<close>

definition performDecryption ::
    "platform \<Rightarrow> jsstring \<Rightarrow> string \<Rightarrow> int option \<Rightarrow> error + decryption" where
  "performDecryption P text type caesarShift =
     (let detectedType = (if type = ''auto'' then detectEncryptionType text else type);
          result =
            (if detectedType = ''decimal'' then decryptDecimal text
             else if detectedType = ''hex'' then decryptHex text
             else if detectedType = ''base64'' then decryptBase64 P text
             else if detectedType = ''caesar'' then Inr (decryptCaesar text caesarShift)
             else if detectedType = ''rot13'' then Inr (decryptROT13 text)
             else if detectedType = ''url'' then decryptURL P text
             else Inl UnsupportedType)
      in case result of
           Inl e \<Rightarrow> Inl e
         | Inr d \<Rightarrow> Inr \<lparr>decoded = d, detectedType = detectedType\<rparr>)"

section \<open>The session history\<close>

text \<open>
  \<open>MemStorage\<close> keeps the sessions in a \<open>Map\<close> from id to session; \<open>values()\<close>
  lists them in insertion order, so the map is an association list. \<open>createdAt\<close> is a
  nullable timestamp, here the milliseconds of \<open>getTime()\<close>; the field \<open>id\<close> is
  \<open>session_id\<close>.
\<close>

record DecryptionSession =
  session_id :: string
  originalText :: jsstring
  decodedText :: jsstring
  encryptionType :: string
  originalLength :: nat
  decodedLength :: nat
  createdAt :: "int option"

text \<open>The sort key \<open>s.createdAt?.getTime() || 0\<close>: a missing timestamp counts as 0.\<close>

definition createdTime :: "DecryptionSession \<Rightarrow> int" where
  "createdTime s = (case createdAt s of None \<Rightarrow> 0 | Some t \<Rightarrow> t)"

text \<open>
  \<open>Array.prototype.slice(start, stop)\<close>: a negative index counts from the end, and
  both indices are clamped to the array.
\<close>

definition array_slice :: "'a list \<Rightarrow> int \<Rightarrow> int \<Rightarrow> 'a list" where
  "array_slice xs start stop =
     (let len = int (length xs);
          k = (if start < 0 then max (len + start) 0 else min start len);
          final = (if stop < 0 then max (len + stop) 0 else min stop len);
          count = max (final - k) 0
      in take (nat count) (drop (nat k) xs))"

text \<open>
  The comparator \<open>(a, b) => time(b) - time(a)\<close> orders by descending time, and
  \<open>Array.prototype.sort\<close> is stable: the result is the stable sort by the negated
  time. An absent limit takes the default 10.
\<close>

definition getDecryptionSessions ::
    "(string \<times> DecryptionSession) list \<Rightarrow> int option \<Rightarrow> DecryptionSession list" where
  "getDecryptionSessions decryptionSessions limit_arg =
     (let limit = (case limit_arg of None \<Rightarrow> 10 | Some n \<Rightarrow> n);
          sessions = map snd decryptionSessions
      in array_slice (sort_key (\<lambda>s. - createdTime s) sessions) 0 limit)"

text \<open>A small history, used to run the query on concrete data.\<close>

definition example_session :: "string \<Rightarrow> int option \<Rightarrow> DecryptionSession" where
  "example_session i t =
     \<lparr>session_id = i, originalText = js ''Khoor'', decodedText = js ''Hello'',
      encryptionType = ''caesar'', originalLength = 5, decodedLength = 5, createdAt = t\<rparr>"

definition example_store :: "(string \<times> DecryptionSession) list" where
  "example_store =
     [(''a'', example_session ''a'' (Some 100)),
      (''b'', example_session ''b'' (Some 300)),
      (''c'', example_session ''c'' None),
      (''d'', example_session ''d'' (Some 200))]"

section \<open>Evaluation\<close>

lemmas char_class_defs = isDigit_def isWhiteSpace_def isUpper_def isLower_def isLetter_def

lemmas number_defs = number_of_int_def nearest_double_def fromCharCode_def ToUint16_def
  number_minus_def

lemmas parseInt_defs = parseInt_def isRadixDigit_def digitValue_def mathInt_def

lemmas regex_defs =
  decimal_regex_def hex_regex_def base64_regex_def url_regex_def
  hex_class_def base64_class_def url_class_def Plus_def Opt_def class_matches_def

section \<open>Regular expressions: \<open>test\<close> decides the language\<close>

lemma conc_iff: "w \<in> conc A B \<longleftrightarrow> (\<exists>u v. w = u @ v \<and> u \<in> A \<and> v \<in> B)"
  by (auto simp: conc_def)

lemma cons_in_conc:
  "c # w \<in> conc A B \<longleftrightarrow>
     (\<exists>u v. w = u @ v \<and> c # u \<in> A \<and> v \<in> B) \<or> ([] \<in> A \<and> c # w \<in> B)"
  by (auto simp: conc_iff Cons_eq_append_conv)

lemma star_cons_split:
  assumes "x \<in> star A" and "x = c # w"
  shows "\<exists>u v. w = u @ v \<and> c # u \<in> A \<and> v \<in> star A"
  using assms
proof (induction rule: star.induct)
  case star_empty
  then show ?case by simp
next
  case (star_step u v)
  show ?case
  proof (cases u)
    case Nil
    with star_step show ?thesis by simp
  next
    case (Cons d u')
    with star_step.prems have "d = c" and "w = u' @ v" by simp_all
    with Cons star_step.hyps show ?thesis by blast
  qed
qed

lemma cons_in_star:
  "c # w \<in> star A \<longleftrightarrow> (\<exists>u v. w = u @ v \<and> c # u \<in> A \<and> v \<in> star A)"
proof
  assume "c # w \<in> star A"
  then show "\<exists>u v. w = u @ v \<and> c # u \<in> A \<and> v \<in> star A"
    by (rule star_cons_split) simp
next
  assume "\<exists>u v. w = u @ v \<and> c # u \<in> A \<and> v \<in> star A"
  then obtain u v where "w = u @ v" "c # u \<in> A" "v \<in> star A" by blast
  then have "(c # u) @ v \<in> star A" by (intro star_step)
  with \<open>w = u @ v\<close> show "c # w \<in> star A" by simp
qed

lemma nullable_lang: "nullable r \<longleftrightarrow> [] \<in> lang r"
  by (induction r) (auto simp: conc_iff intro: star_empty)

lemma deriv_lang: "w \<in> lang (deriv c r) \<longleftrightarrow> c # w \<in> lang r"
proof (induction r arbitrary: w)
  case (Seq r s)
  have "w \<in> lang (deriv c (Seq r s)) \<longleftrightarrow>
        (\<exists>u v. w = u @ v \<and> u \<in> lang (deriv c r) \<and> v \<in> lang s)
        \<or> (nullable r \<and> w \<in> lang (deriv c s))"
    by (auto simp: conc_iff)
  also have "\<dots> \<longleftrightarrow>
        (\<exists>u v. w = u @ v \<and> c # u \<in> lang r \<and> v \<in> lang s)
        \<or> ([] \<in> lang r \<and> c # w \<in> lang s)"
    by (simp add: Seq.IH nullable_lang)
  also have "\<dots> \<longleftrightarrow> c # w \<in> lang (Seq r s)"
    by (simp add: cons_in_conc)
  finally show ?case .
next
  case (Star r)
  then show ?case by (simp add: cons_in_star conc_iff)
qed auto

lemma test_lang: "test r w \<longleftrightarrow> w \<in> lang r"
  by (induction w arbitrary: r) (simp_all add: nullable_lang deriv_lang)

subsection \<open>The classifier's patterns in closed form\<close>

lemma star_subset_chars:
  assumes "w \<in> star A" and "\<And>x. x \<in> A \<Longrightarrow> set x \<subseteq> S"
  shows "set w \<subseteq> S"
  using assms by (induction rule: star.induct) auto

lemma star_singletons: "w \<in> star {[c] | c. P c} \<longleftrightarrow> (\<forall>c\<in>set w. P c)"
proof
  assume "w \<in> star {[c] | c. P c}"
  then have "set w \<subseteq> {c. P c}" by (rule star_subset_chars) auto
  then show "\<forall>c\<in>set w. P c" by auto
next
  show "\<forall>c\<in>set w. P c \<Longrightarrow> w \<in> star {[c] | c. P c}"
  proof (induction w)
    case Nil
    show ?case by (rule star_empty)
  next
    case (Cons c w)
    then have "[c] \<in> {[c] | c. P c}" and "w \<in> star {[c] | c. P c}" by auto
    then have "[c] @ w \<in> star {[c] | c. P c}" by (rule star_step)
    then show ?case by simp
  qed
qed

lemma lang_Seq: "w \<in> lang (Seq r s) \<longleftrightarrow> (\<exists>u v. w = u @ v \<and> u \<in> lang r \<and> v \<in> lang s)"
  by (simp add: conc_iff)

lemma lang_Star_Class: "w \<in> lang (Star (Class as)) \<longleftrightarrow> (\<forall>c\<in>set w. class_matches as c)"
  by (simp add: star_singletons)

lemma lang_Plus_Class:
  "w \<in> lang (Plus (Class as)) \<longleftrightarrow> w \<noteq> [] \<and> (\<forall>c\<in>set w. class_matches as c)"
proof (cases w)
  case Nil
  then show ?thesis by (simp add: Plus_def conc_iff)
next
  case (Cons c w')
  then show ?thesis by (auto simp: Plus_def cons_in_conc star_singletons)
qed

lemma lang_Opt: "w \<in> lang (Opt r) \<longleftrightarrow> w = [] \<or> w \<in> lang r"
  by (auto simp: Opt_def)

declare lang.simps [simp del]

lemma test_Plus_Class:
  "test (Plus (Class as)) w \<longleftrightarrow> w \<noteq> [] \<and> list_all (class_matches as) w"
  by (simp add: test_lang lang_Plus_Class list_all_iff)

lemma class_Digit: "class_matches [Digit] c \<longleftrightarrow> isDigit c"
  by (simp add: class_matches_def)

lemma class_Chr: "class_matches [Chr a] c \<longleftrightarrow> c = a"
  by (simp add: class_matches_def)

lemma decimal_group_chars:
  assumes "x \<in> lang (Seq (Opt (Class [Chr backslash])) (Plus (Class [Digit])))"
  shows "x \<noteq> [] \<and> set x \<subseteq> {c. c = backslash \<or> isDigit c}"
proof -
  from assms obtain u v where x: "x = u @ v"
    and u: "u \<in> lang (Opt (Class [Chr backslash]))" and v: "v \<in> lang (Plus (Class [Digit]))"
    unfolding lang_Seq by blast
  from u have "set u \<subseteq> {c. c = backslash \<or> isDigit c}"
    by (auto simp: lang_Opt lang.simps(3) class_Chr)
  moreover from v have "v \<noteq> []" and "set v \<subseteq> {c. c = backslash \<or> isDigit c}"
    by (auto simp: lang_Plus_Class class_Digit)
  ultimately show ?thesis using x by simp
qed

lemma decimal_regex_chars:
  assumes "w \<in> lang decimal_regex"
  shows "w \<noteq> [] \<and> set w \<subseteq> {c. c = backslash \<or> isDigit c}"
proof -
  let ?G = "Seq (Opt (Class [Chr backslash])) (Plus (Class [Digit]))"
  let ?S = "{c. c = backslash \<or> isDigit c}"
  from assms obtain u r where w: "w = u @ r"
    and u: "u \<in> lang (Opt (Class [Chr backslash]))"
    and r: "r \<in> lang (Seq (Plus (Class [Digit])) (Star ?G))"
    unfolding decimal_regex_def lang_Seq [of w] by blast
  from r obtain v y where r': "r = v @ y"
    and v: "v \<in> lang (Plus (Class [Digit]))" and y: "y \<in> lang (Star ?G)"
    unfolding lang_Seq [of r] by blast
  from u have "set u \<subseteq> ?S" by (auto simp: lang_Opt lang.simps(3) class_Chr)
  moreover from v have "v \<noteq> []" and "set v \<subseteq> ?S" by (auto simp: lang_Plus_Class class_Digit)
  moreover from y have "y \<in> star (lang ?G)" by (simp add: lang.simps(6))
  then have "set y \<subseteq> ?S"
  proof (rule star_subset_chars)
    fix x assume "x \<in> lang ?G"
    then show "set x \<subseteq> ?S" using decimal_group_chars by blast
  qed
  ultimately show ?thesis using w r' by simp
qed

lemma digits_in_decimal_regex:
  assumes "w \<noteq> []" and "\<forall>c\<in>set w. isDigit c"
  shows "w \<in> lang decimal_regex"
proof -
  let ?G = "Seq (Opt (Class [Chr backslash])) (Plus (Class [Digit]))"
  from assms have "w \<in> lang (Plus (Class [Digit]))"
    by (simp add: lang_Plus_Class class_Digit)
  moreover have "[] \<in> lang (Star ?G)" by (simp add: lang.simps(6) star_empty)
  ultimately have "w @ [] \<in> lang (Seq (Plus (Class [Digit])) (Star ?G))"
    unfolding lang_Seq by blast
  moreover have "[] \<in> lang (Opt (Class [Chr backslash]))" by (simp add: lang_Opt)
  ultimately have "[] @ w @ [] \<in> lang decimal_regex"
    unfolding decimal_regex_def lang_Seq [of "[] @ w @ []"] by blast
  then show ?thesis by simp
qed

lemma test_decimal_regex:
  assumes "backslash \<notin> set w"
  shows "test decimal_regex w \<longleftrightarrow> w \<noteq> [] \<and> list_all isDigit w"
proof
  assume "test decimal_regex w"
  then have "w \<noteq> [] \<and> set w \<subseteq> {c. c = backslash \<or> isDigit c}"
    by (simp add: test_lang decimal_regex_chars)
  with assms show "w \<noteq> [] \<and> list_all isDigit w" by (auto simp: list_all_iff)
next
  assume "w \<noteq> [] \<and> list_all isDigit w"
  then show "test decimal_regex w"
    by (simp add: test_lang digits_in_decimal_regex list_all_iff)
qed

lemma takeWhile_dropWhile_split:
  assumes "\<forall>c\<in>set u. P c" and "\<forall>c\<in>set v. \<not> P c"
  shows "takeWhile P (u @ v) = u \<and> dropWhile P (u @ v) = v"
proof -
  from assms(2) have "takeWhile P v = []" and "dropWhile P v = v" by (cases v; simp)+
  with assms(1) show ?thesis
    by (simp add: takeWhile_append2 dropWhile_append2)
qed

lemma equals_not_base64: "\<not> class_matches base64_class (of_char CHR ''='')"
  by (simp add: class_matches_def base64_class_def)

lemma test_base64_regex:
  "test base64_regex w \<longleftrightarrow>
     takeWhile (class_matches base64_class) w \<noteq> []
     \<and> list_all (\<lambda>c. c = of_char CHR ''='') (dropWhile (class_matches base64_class) w)"
proof
  assume "test base64_regex w"
  then have "w \<in> lang (Seq (Plus (Class base64_class)) (Star (Class [Chr (of_char CHR ''='')])))"
    by (simp add: test_lang base64_regex_def)
  then obtain u v where w: "w = u @ v" and "u \<in> lang (Plus (Class base64_class))"
    and "v \<in> lang (Star (Class [Chr (of_char CHR ''='')]))"
    unfolding lang_Seq by blast
  then have u: "u \<noteq> []" "\<forall>c\<in>set u. class_matches base64_class c"
    and v: "\<forall>c\<in>set v. c = of_char CHR ''=''"
    unfolding lang_Plus_Class lang_Star_Class class_Chr by blast+
  from v have "\<forall>c\<in>set v. \<not> class_matches base64_class c"
    using equals_not_base64 by auto
  with u(2) have "takeWhile (class_matches base64_class) (u @ v) = u
    \<and> dropWhile (class_matches base64_class) (u @ v) = v"
    by (rule takeWhile_dropWhile_split)
  with w u v show "takeWhile (class_matches base64_class) w \<noteq> []
     \<and> list_all (\<lambda>c. c = of_char CHR ''='') (dropWhile (class_matches base64_class) w)"
    by (simp add: list_all_iff)
next
  let ?u = "takeWhile (class_matches base64_class) w"
  let ?v = "dropWhile (class_matches base64_class) w"
  assume a: "?u \<noteq> [] \<and> list_all (\<lambda>c. c = of_char CHR ''='') ?v"
  have "\<forall>c\<in>set ?u. class_matches base64_class c" by (auto dest: set_takeWhileD)
  with a have "?u \<in> lang (Plus (Class base64_class))"
    unfolding lang_Plus_Class by blast
  moreover from a have "?v \<in> lang (Star (Class [Chr (of_char CHR ''='')]))"
    unfolding lang_Star_Class class_Chr list_all_iff by blast
  ultimately have "?u @ ?v \<in> lang base64_regex"
    unfolding base64_regex_def lang_Seq by blast
  then show "test base64_regex w" by (simp add: test_lang)
qed

section \<open>The Caesar decoder within one turn of the alphabet\<close>

text \<open>
  For a shift of at most 26 the dividend of \<open>%\<close> is never negative, and down to
  \<open>- (2 ^ 52)\<close> every intermediate value is an exact double: there the decoder agrees
  with \<open>shift_back\<close>. Shifts by \<open>j\<close> and \<open>k\<close> compose to a shift by \<open>j + k\<close>, and
  a shift by a multiple of 26 is the identity.
\<close>

lemma isUpper_uint: "isUpper c \<longleftrightarrow> 65 \<le> uint c \<and> uint c \<le> 90"
  by (simp add: isUpper_def word_le_def)

lemma isLower_uint: "isLower c \<longleftrightarrow> 97 \<le> uint c \<and> uint c \<le> 122"
  by (simp add: isLower_def word_le_def)

lemma le_Z_uint: "c \<le> (0x5A :: 16 word) \<longleftrightarrow> uint c \<le> 90"
  by (simp add: word_le_def)

lemma uint_code_unit:
  "0 \<le> v \<Longrightarrow> v < 65536 \<Longrightarrow> uint (word_of_int v :: 16 word) = v"
  by (simp add: uint_word_of_int_eq take_bit_int_eq_self)

lemma number_of_int_exact:
  assumes "\<bar>k\<bar> < 2 ^ 53"
  shows "number_of_int k = Finite k"
proof -
  from assms have "nat \<bar>k\<bar> < 2 ^ 53"
    by (simp add: nat_less_iff)
  then have "nearest_double (nat \<bar>k\<bar>) = Some (nat \<bar>k\<bar>)"
    by (simp add: nearest_double_def)
  moreover have "sgn k * int (nat \<bar>k\<bar>) = k"
    by (simp add: mult_sgn_abs)
  ultimately show ?thesis by (simp add: number_of_int_def)
qed

lemma number_plus_exact:
  "\<bar>a + b\<bar> < 2 ^ 53 \<Longrightarrow> number_plus (Finite a) (Finite b) = Finite (a + b)"
  by (simp add: number_of_int_exact)

lemma number_minus_exact:
  "\<bar>a - b\<bar> < 2 ^ 53 \<Longrightarrow> number_minus (Finite a) (Finite b) = Finite (a - b)"
  by (simp add: number_minus_def number_of_int_exact)

lemma caesar_arith:
  assumes "0 \<le> x" and "x \<le> 25" and "- (2 ^ 52) \<le> k" and "k \<le> 26"
    and "s = 65 \<or> s = 97"
  shows "number_plus
           (number_rem
              (number_plus
                 (number_minus (number_minus (Finite (x + s)) (Finite s)) (number_of_int k))
                 (Finite 26))
              (Finite 26))
           (Finite s) = Finite (s + (x - k) mod 26)"
proof -
  have x: "number_minus (Finite (x + s)) (Finite s) = Finite x"
    using assms(1,2) number_minus_exact [of "x + s" s] by simp
  have k: "number_of_int k = Finite k"
    using assms(3,4) by (intro number_of_int_exact) simp
  have xk: "number_minus (Finite x) (Finite k) = Finite (x - k)"
    using assms(1-4) by (intro number_minus_exact) simp
  have xk26: "number_plus (Finite (x - k)) (Finite 26) = Finite (x - k + 26)"
    using assms(1-4) by (intro number_plus_exact) simp
  from assms(1,4) have "0 \<le> x - k + 26" by simp
  then have "(x - k + 26) smod 26 = (x - k + 26) mod 26"
    by (simp add: smod_mod_positive)
  also have "\<dots> = (x - k) mod 26" by (rule mod_add_self2)
  finally have rem: "number_rem (Finite (x - k + 26)) (Finite 26) = Finite ((x - k) mod 26)"
    by simp
  have "0 \<le> (x - k) mod 26" and "(x - k) mod 26 < 26" by simp_all
  with assms(5) have "\<bar>(x - k) mod 26 + s\<bar> < 2 ^ 53" by auto
  then have "number_plus (Finite ((x - k) mod 26)) (Finite s) = Finite ((x - k) mod 26 + s)"
    by (rule number_plus_exact)
  with x k xk xk26 rem show ?thesis by (simp add: add.commute)
qed

lemma decryptCaesar_char:
  assumes "- (2 ^ 52) \<le> k" and "k \<le> 26"
  shows "(if isLetter c
          then (let start = (if c \<le> 0x5A then Finite 65 else Finite 97)
                in fromCharCode
                     (number_plus
                        (number_rem
                           (number_plus
                              (number_minus (number_minus (Finite (uint c)) start) (number_of_int k))
                              (Finite 26))
                           (Finite 26))
                        start))
          else c) = shift_back k c"
proof (cases "isUpper c")
  case True
  then have c: "65 \<le> uint c" "uint c \<le> 90" by (simp_all add: isUpper_uint)
  then have "0 \<le> uint c - 65" and "uint c - 65 \<le> 25" by simp_all
  from caesar_arith [OF this assms, of 65]
  show ?thesis
    using True c by (simp add: shift_back_def isLetter_def le_Z_uint fromCharCode_def ToUint16_def)
next
  case False
  show ?thesis
  proof (cases "isLower c")
    case True
    then have c: "97 \<le> uint c" "uint c \<le> 122" by (simp_all add: isLower_uint)
    then have "0 \<le> uint c - 97" and "uint c - 97 \<le> 25" by simp_all
    from caesar_arith [OF this assms, of 97]
    show ?thesis
      using True False c
      by (simp add: shift_back_def isLetter_def le_Z_uint fromCharCode_def ToUint16_def)
  next
    case False
    with \<open>\<not> isUpper c\<close> show ?thesis by (simp add: shift_back_def isLetter_def)
  qed
qed

lemma decryptCaesar_in_range:
  assumes "- (2 ^ 52) \<le> k" and "k \<le> 26"
  shows "decryptCaesar text (Some k) = map (shift_back k) text"
  unfolding decryptCaesar_def using decryptCaesar_char [OF assms] by simp

lemma decryptCaesar_default: "decryptCaesar text None = map (shift_back 3) text"
proof -
  have "decryptCaesar text None = decryptCaesar text (Some 3)"
    by (simp add: decryptCaesar_def number_of_int_exact)
  then show ?thesis by (simp add: decryptCaesar_in_range)
qed

lemma shift_back_upper:
  assumes "isUpper c"
  shows "isUpper (shift_back k c)" and "uint (shift_back k c) = 65 + (uint c - 65 - k) mod 26"
proof -
  let ?v = "65 + (uint c - 65 - k) mod 26"
  have "0 \<le> (uint c - 65 - k) mod 26" and "(uint c - 65 - k) mod 26 < 26" by simp_all
  then have v: "65 \<le> ?v" "?v \<le> 90" by linarith+
  then have "uint (word_of_int ?v :: 16 word) = ?v" by (intro uint_code_unit) linarith+
  with assms v show "uint (shift_back k c) = ?v" and "isUpper (shift_back k c)"
    by (simp_all add: shift_back_def isUpper_uint)
qed

lemma shift_back_lower:
  assumes "isLower c"
  shows "isLower (shift_back k c)" and "uint (shift_back k c) = 97 + (uint c - 97 - k) mod 26"
proof -
  let ?v = "97 + (uint c - 97 - k) mod 26"
  from assms have not_upper: "\<not> isUpper c" by (simp add: isUpper_uint isLower_uint)
  have "0 \<le> (uint c - 97 - k) mod 26" and "(uint c - 97 - k) mod 26 < 26" by simp_all
  then have v: "97 \<le> ?v" "?v \<le> 122" by linarith+
  then have "uint (word_of_int ?v :: 16 word) = ?v" by (intro uint_code_unit) linarith+
  with assms not_upper v show "uint (shift_back k c) = ?v" and "isLower (shift_back k c)"
    by (simp_all add: shift_back_def isLower_uint)
qed

lemma shift_back_add: "shift_back j (shift_back k c) = shift_back (j + k) c"
proof (cases "isUpper c")
  case True
  have "(65 + (uint c - 65 - k) mod 26 - 65 - j) mod 26 = (uint c - 65 - (j + k)) mod 26"
    by (simp add: mod_diff_left_eq algebra_simps)
  with True shift_back_upper [OF True, of k] show ?thesis
    by (simp add: shift_back_def [of j] shift_back_def [of "j + k"])
next
  case False
  show ?thesis
  proof (cases "isLower c")
    case True
    have "(97 + (uint c - 97 - k) mod 26 - 97 - j) mod 26 = (uint c - 97 - (j + k)) mod 26"
      by (simp add: mod_diff_left_eq algebra_simps)
    moreover from shift_back_lower(1) [OF True, of k] have "\<not> isUpper (shift_back k c)"
      by (simp add: isUpper_uint isLower_uint)
    ultimately show ?thesis
      using True False shift_back_lower [OF True, of k]
      by (simp add: shift_back_def [of j] shift_back_def [of "j + k"])
  next
    case False
    with \<open>\<not> isUpper c\<close> show ?thesis by (simp add: shift_back_def)
  qed
qed

lemma shift_back_multiple_26:
  assumes "k mod 26 = 0"
  shows "shift_back k c = c"
proof -
  have "(x - k) mod 26 = x mod 26" for x :: int
    using assms by (metis mod_diff_right_eq diff_zero)
  then have upper: "isUpper c \<Longrightarrow> 65 + (uint c - 65 - k) mod 26 = uint c"
    and lower: "isLower c \<Longrightarrow> 97 + (uint c - 97 - k) mod 26 = uint c"
    by (simp_all add: isUpper_uint isLower_uint)
  show ?thesis
    by (simp add: shift_back_def upper lower)
qed

lemma decryptROT13_involution: "decryptROT13 (decryptROT13 s) = s"
proof -
  have "shift_back 13 (shift_back 13 c) = c" for c
    by (simp add: shift_back_add shift_back_multiple_26)
  then show ?thesis
    by (simp add: decryptROT13_def decryptCaesar_in_range map_idI)
qed

lemma decryptCaesar_round_trip_in_range:
  assumes "- 26 \<le> k" and "k \<le> 26"
  shows "decryptCaesar (decryptCaesar s (Some (- k))) (Some k) = s"
proof -
  have "shift_back k (shift_back (- k) c) = c" for c
    by (simp add: shift_back_add shift_back_multiple_26)
  moreover from assms have "- (2 ^ 52) \<le> - k" and "- k \<le> 26" and "- (2 ^ 52) \<le> k"
    by simp_all
  ultimately show ?thesis
    using assms(2) by (simp add: decryptCaesar_in_range map_idI)
qed

section \<open>The decoders on malformed input\<close>

text \<open>
  None of the three decoders below has a failure outcome: for every input the result
  is a decoded string.
\<close>

lemma decryptHex_never_fails: "decryptHex text \<noteq> Inl e"
  by (simp add: decryptHex_def)

lemma decryptDecimal_never_fails: "decryptDecimal text \<noteq> Inl e"
  by (simp add: decryptDecimal_def)

lemma decryptBase64_never_fails: "decryptBase64 P text \<noteq> Inl e"
  by (simp add: decryptBase64_def)

text \<open>
  C1. The claim asks the hex decoder for a \<open>HexError\<close> on every input of odd length
  after white space removal, and names \<open>48656c6c6\<close>. The code returns a success there:
  the last round reads the single digit \<open>6\<close>, and the result is \<open>Hell\<close> followed by
  the character U+0006.
\<close>

theorem decryptHex_odd_length: "decryptHex (js ''48656c6c6'') = Inr (js ''Hell'' @ [6])"
  by (simp add: decryptHex_def js_def decryptHex_loop.simps substr_def
      char_class_defs number_defs parseInt_defs)

text \<open>
  C2. The claim asks the base64 decoder for a \<open>Base64Error\<close> on characters outside
  the alphabet, invalid padding or invalid UTF-8, and names \<open>not base64!!\<close>. The code
  returns whatever the runtime decodes, as a success, for every runtime.
\<close>

theorem decryptBase64_invalid_input:
  "decryptBase64 P (js ''not base64!!'')
     = Inr (toString_utf8 P (Buffer_from_base64 P (js ''not base64!!'')))"
  by (simp add: decryptBase64_def)

text \<open>
  C3. The claim asks the decimal decoder for a \<open>DecimalError\<close> when a fragment is not
  a non-negative decimal integer. On the fragments \<open>72\<close> and \<open>abc\<close> the code returns
  a success: \<open>H\<close> followed by U+0000, the character of NaN.
\<close>

theorem decryptDecimal_bad_fragment:
  "decryptDecimal (backslash # js ''72'' @ backslash # js ''abc'') = Inr (js ''H'' @ [0])"
  by (simp add: decryptDecimal_def js_def backslash_def
      char_class_defs number_defs parseInt_defs)

section \<open>The Caesar decoder beyond one turn\<close>

text \<open>
  C4. The claim asks for a backward shift wrapping modulo 26 for every integer shift.
  With shift 27 the letter \<open>a\<close> should become \<open>z\<close>; the code computes
  \<open>(0 - 27 + 26) % 26 = -1\<close> and returns the code unit 96, which is not a letter.
\<close>

theorem decryptCaesar_shift_27: "decryptCaesar (js ''a'') (Some 27) = [0x60]"
  by (simp add: decryptCaesar_def js_def char_class_defs number_defs smod_int_alt_def)

text \<open>
  C7. The claim asks that decoding with \<open>- shift\<close> and then with \<open>shift\<close> gives the
  string back for every integer shift, and that ROT13 is its own inverse. The second
  holds (\<open>decryptROT13_involution\<close>), and so does the first for shifts between -26
  and 26 (\<open>decryptCaesar_round_trip_in_range\<close>); with shift 27 the round trip of
  \<open>z\<close> ends in the code unit 96 instead of \<open>z\<close>.
\<close>

theorem decryptCaesar_round_trip_27:
  "decryptCaesar (decryptCaesar (js ''z'') (Some (- 27))) (Some 27) = [0x60]"
  by (simp add: decryptCaesar_def js_def char_class_defs number_defs smod_int_alt_def)

text \<open>
  Beyond \<open>2 ^ 53\<close> the arithmetic rounds: the shift \<open>2 ^ 53 + 1\<close> reaches the decoder
  as \<open>2 ^ 53\<close>, and \<open>a\<close> becomes the code unit 91.
\<close>

lemma floorlog_2_53: "floorlog 2 (9007199254740992::nat) = 54"
proof (rule antisym)
  show "floorlog 2 (9007199254740992::nat) \<le> 54" by (rule floorlog_leI) simp_all
  show "54 \<le> floorlog 2 (9007199254740992::nat)" by (rule floorlog_geI) simp_all
qed

lemma floorlog_2_53_1: "floorlog 2 (9007199254740993::nat) = 54"
proof (rule antisym)
  show "floorlog 2 (9007199254740993::nat) \<le> 54" by (rule floorlog_leI) simp_all
  show "54 \<le> floorlog 2 (9007199254740993::nat)" by (rule floorlog_geI) simp_all
qed

lemma number_of_int_2_53_1: "number_of_int 9007199254740993 = Finite 9007199254740992"
  by (simp add: number_of_int_def nearest_double_def floorlog_2_53_1)

lemma number_of_int_neg_2_53: "number_of_int (- 9007199254740992) = Finite (- 9007199254740992)"
  by (simp add: number_of_int_def nearest_double_def floorlog_2_53)

lemma decryptCaesar_rounded_shift:
  "decryptCaesar (js ''a'') (Some 9007199254740993) = [0x5B]"
proof -
  have "number_minus (number_minus (Finite 97) (Finite 97)) (number_of_int 9007199254740993)
      = Finite (- 9007199254740992)"
    by (simp add: number_minus_def number_of_int_2_53_1 number_of_int_neg_2_53
        number_of_int_exact)
  moreover have "number_plus (Finite (- 9007199254740992)) (Finite 26)
      = Finite (- 9007199254740966)"
    by (simp add: number_of_int_exact)
  moreover have "number_rem (Finite (- 9007199254740966)) (Finite 26) = Finite (- 6)"
    by (simp add: smod_int_alt_def)
  moreover have "number_plus (Finite (- 6)) (Finite 97) = Finite 91"
    by (simp add: number_of_int_exact)
  ultimately show ?thesis
    by (simp add: decryptCaesar_def js_def char_class_defs fromCharCode_def ToUint16_def)
qed

section \<open>The classifier: rule order and labels\<close>

lemma digit_not_backslash: "isDigit c \<Longrightarrow> c \<noteq> backslash"
  by (auto simp: isDigit_def backslash_def)

text \<open>
  C5. The classifier is the chain of its four rules in the order decimal, hex, base64,
  url, with \<open>caesar\<close> as the fallback, the first rule that holds giving the label; the
  rules are written here in closed form, as the code tests them. In particular every
  non-empty string of digits is labelled \<open>decimal\<close>, whatever the later rules say.
\<close>

theorem detectEncryptionType_rule_order:
  "detectEncryptionType text =
     (let stripped = filter (\<lambda>c. c \<noteq> backslash) text in
      if stripped \<noteq> [] \<and> list_all isDigit stripped then ''decimal''
      else if text \<noteq> [] \<and> list_all (class_matches hex_class) text \<and> even (length text)
        then ''hex''
      else if takeWhile (class_matches base64_class) text \<noteq> []
           \<and> list_all (\<lambda>c. c = of_char CHR ''='') (dropWhile (class_matches base64_class) text)
           \<and> 4 dvd length text
        then ''base64''
      else if of_char CHR ''%'' \<in> set text \<and> list_all (class_matches url_class) text
        then ''url''
      else ''caesar'')
   \<and> (text \<noteq> [] \<and> list_all isDigit text \<longrightarrow> detectEncryptionType text = ''decimal'')"
proof -
  let ?stripped = "filter (\<lambda>c. c \<noteq> backslash) text"
  have "backslash \<notin> set ?stripped" by simp
  then have decimal:
    "test decimal_regex ?stripped \<longleftrightarrow> ?stripped \<noteq> [] \<and> list_all isDigit ?stripped"
    by (rule test_decimal_regex)
  have hex: "test hex_regex text \<longleftrightarrow> text \<noteq> [] \<and> list_all (class_matches hex_class) text"
    by (simp only: hex_regex_def test_Plus_Class)
  have url: "test url_regex text \<longleftrightarrow> text \<noteq> [] \<and> list_all (class_matches url_class) text"
    by (simp only: url_regex_def test_Plus_Class)
  have percent: "of_char CHR ''%'' \<in> set text \<Longrightarrow> text \<noteq> []" by auto
  have chain: "detectEncryptionType text =
     (let stripped = ?stripped in
      if stripped \<noteq> [] \<and> list_all isDigit stripped then ''decimal''
      else if text \<noteq> [] \<and> list_all (class_matches hex_class) text \<and> even (length text)
        then ''hex''
      else if takeWhile (class_matches base64_class) text \<noteq> []
           \<and> list_all (\<lambda>c. c = of_char CHR ''='') (dropWhile (class_matches base64_class) text)
           \<and> 4 dvd length text
        then ''base64''
      else if of_char CHR ''%'' \<in> set text \<and> list_all (class_matches url_class) text
        then ''url''
      else ''caesar'')"
    unfolding detectEncryptionType_def Let_def decimal hex url test_base64_regex
    using percent by (auto simp: dvd_eq_mod_eq_0 even_iff_mod_2_eq_zero)
  have digits: "detectEncryptionType text = ''decimal''"
    if "text \<noteq> []" and "list_all isDigit text"
  proof -
    from that(2) have stripped: "?stripped = text"
      by (auto simp: list_all_iff filter_id_conv dest: digit_not_backslash)
    from that have "?stripped \<noteq> [] \<and> list_all isDigit ?stripped"
      by (simp add: stripped)
    then have "test decimal_regex ?stripped"
      by (rule decimal [THEN iffD2])
    then show ?thesis by (simp add: detectEncryptionType_def)
  qed
  from chain digits show ?thesis by blast
qed

text \<open>
  The string \<open>12345678\<close> has the shape of the hex rule as well (hex digits, even
  length) and is labelled \<open>decimal\<close>.
\<close>

theorem detectEncryptionType_rule_order_witness:
  "js ''12345678'' \<noteq> [] \<and> list_all isDigit (js ''12345678'')
   \<and> list_all (class_matches hex_class) (js ''12345678'') \<and> even (length (js ''12345678''))
   \<and> detectEncryptionType (js ''12345678'') = ''decimal''"
proof -
  have digits: "js ''12345678'' \<noteq> [] \<and> list_all isDigit (js ''12345678'')"
    by (simp add: js_def isDigit_def)
  have hex_shape: "list_all (class_matches hex_class) (js ''12345678'')
      \<and> even (length (js ''12345678''))"
    by (simp add: js_def class_matches_def hex_class_def)
  have "detectEncryptionType (js ''12345678'') = ''decimal''"
    by (rule detectEncryptionType_rule_order [THEN conjunct2, THEN mp, OF digits])
  with digits hex_shape show ?thesis by simp
qed

text \<open>
  C6. The claim has the hex rule count the length after white space removal and ask
  for a non-empty remainder. The code accepts white space in the pattern but takes the
  parity of the whole text, white space included: \<open>48 65\<close>, four hex digits around
  one space, has length 5 and falls through to \<open>caesar\<close>.
\<close>

theorem detectEncryptionType_spaced_hex: "detectEncryptionType (js ''48 65'') = ''caesar''"
  by (simp add: detectEncryptionType_def js_def backslash_def char_class_defs regex_defs)

text \<open>The other way round, two spaces alone are labelled \<open>hex\<close>.\<close>

lemma detectEncryptionType_blank: "detectEncryptionType (js ''  '') = ''hex''"
  by (simp add: detectEncryptionType_def js_def backslash_def char_class_defs regex_defs)

text \<open>
  C9. The classifier returns one of the five labels \<open>decimal\<close>, \<open>hex\<close>, \<open>base64\<close>,
  \<open>url\<close>, \<open>caesar\<close>, never \<open>rot13\<close> or \<open>auto\<close>. A successful request in \<open>auto\<close>
  mode reports the classifier's label, so never \<open>rot13\<close>; a successful request that
  reports \<open>rot13\<close> was made with the type \<open>rot13\<close>.
\<close>

theorem detectEncryptionType_labels:
  "detectEncryptionType text \<in> {''decimal'', ''hex'', ''base64'', ''url'', ''caesar''}
   \<and> detectEncryptionType text \<noteq> ''rot13''
   \<and> detectEncryptionType text \<noteq> ''auto''
   \<and> (performDecryption P text ''auto'' shift = Inr r
        \<longrightarrow> detectedType r = detectEncryptionType text \<and> detectedType r \<noteq> ''rot13'')
   \<and> (performDecryption P text type shift' = Inr r' \<and> detectedType r' = ''rot13''
        \<longrightarrow> type = ''rot13'')"
proof -
  have labels: "detectEncryptionType text \<in> {''decimal'', ''hex'', ''base64'', ''url'', ''caesar''}"
    by (simp add: detectEncryptionType_def)
  then have no_rot13: "detectEncryptionType text \<noteq> ''rot13''"
    and no_auto: "detectEncryptionType text \<noteq> ''auto''"
    by auto
  have auto_mode: "detectedType r = detectEncryptionType text"
    if "performDecryption P text ''auto'' shift = Inr r"
    using that by (auto simp: performDecryption_def Let_def split: sum.splits if_splits)
  have explicit: "type = ''rot13''"
    if "performDecryption P text type shift' = Inr r'" and "detectedType r' = ''rot13''"
  proof -
    from that have "(if type = ''auto'' then detectEncryptionType text else type) = ''rot13''"
      by (auto simp: performDecryption_def Let_def split: sum.splits)
    with no_rot13 show ?thesis by (simp split: if_splits)
  qed
  from labels no_rot13 no_auto auto_mode explicit show ?thesis by auto
qed

lemma detect_Khoor: "detectEncryptionType (js ''Khoor'') = ''caesar''"
  by (simp add: detectEncryptionType_def js_def backslash_def char_class_defs regex_defs)

lemma performDecryption_Khoor_auto:
  "performDecryption P (js ''Khoor'') ''auto'' None
     = Inr \<lparr>decoded = js ''Hello'', detectedType = ''caesar''\<rparr>"
  by (simp add: performDecryption_def detect_Khoor decryptCaesar_default)
     (simp add: js_def shift_back_def isUpper_def isLower_def)

lemma performDecryption_Khoor_rot13:
  "performDecryption P (js ''Khoor'') ''rot13'' None
     = Inr \<lparr>decoded = js ''Xubbe'', detectedType = ''rot13''\<rparr>"
  by (simp add: performDecryption_def decryptROT13_def decryptCaesar_in_range)
     (simp add: js_def shift_back_def isUpper_def isLower_def)

theorem detectEncryptionType_labels_witness:
  "\<forall>P. performDecryption P (js ''Khoor'') ''auto'' None
          = Inr \<lparr>decoded = js ''Hello'', detectedType = ''caesar''\<rparr>
      \<and> detectEncryptionType (js ''Khoor'') = ''caesar''
      \<and> performDecryption P (js ''Khoor'') ''rot13'' None
          = Inr \<lparr>decoded = js ''Xubbe'', detectedType = ''rot13''\<rparr>"
proof
  fix P
  let ?auto = "\<lparr>decoded = js ''Hello'', detectedType = ''caesar''\<rparr>"
  let ?rot = "\<lparr>decoded = js ''Xubbe'', detectedType = ''rot13''\<rparr>"
  from detectEncryptionType_labels
    [of "js ''Khoor''" P None ?auto "''rot13''" None ?rot]
  have "detectedType ?auto = detectEncryptionType (js ''Khoor'')"
    using performDecryption_Khoor_auto [of P] by blast
  then show "performDecryption P (js ''Khoor'') ''auto'' None = Inr ?auto
      \<and> detectEncryptionType (js ''Khoor'') = ''caesar''
      \<and> performDecryption P (js ''Khoor'') ''rot13'' None = Inr ?rot"
    using performDecryption_Khoor_auto [of P] performDecryption_Khoor_rot13 [of P] by simp
qed

section \<open>The dispatcher and the shift\<close>

text \<open>
  C8. When the resolved type is not \<open>caesar\<close>, the shift has no influence: two
  requests that differ only in the shift have the same outcome, decoded text or
  failure alike.
\<close>

theorem performDecryption_shift_ignored:
  "(if type = ''auto'' then detectEncryptionType text else type) \<noteq> ''caesar''
   \<Longrightarrow> performDecryption P text type shift1 = performDecryption P text type shift2"
  by (cases "type = ''auto''") (simp_all add: performDecryption_def Let_def)

lemma detect_hello_hex: "detectEncryptionType (js ''48656c6c6f'') = ''hex''"
  by (simp add: detectEncryptionType_def js_def backslash_def char_class_defs regex_defs)

theorem performDecryption_shift_ignored_witness:
  "\<forall>P. (if ''auto'' = ''auto'' then detectEncryptionType (js ''48656c6c6f'') else ''auto'')
          \<noteq> ''caesar''
      \<and> performDecryption P (js ''48656c6c6f'') ''auto'' (Some 1)
          = performDecryption P (js ''48656c6c6f'') ''auto'' (Some 25)"
  using performDecryption_shift_ignored [of "''auto''" "js ''48656c6c6f''" _ "Some 1" "Some 25"]
  by (simp add: detect_hello_hex)

section \<open>The history query\<close>

lemma array_slice_from_0: "0 \<le> n \<Longrightarrow> array_slice xs 0 n = take (nat n) xs"
  by (auto simp: array_slice_def Let_def min_def max_def)

lemma getDecryptionSessions_take:
  "0 \<le> N \<Longrightarrow> getDecryptionSessions store (Some N)
     = take (nat N) (sort_key (\<lambda>s. - createdTime s) (map snd store))"
  by (simp add: getDecryptionSessions_def array_slice_from_0)

lemma sorted_newest_first:
  "sorted_wrt (\<lambda>a b. createdTime b \<le> createdTime a) (sort_key (\<lambda>s. - createdTime s) xs)"
proof -
  have "sorted (map (\<lambda>s. - createdTime s) (sort_key (\<lambda>s. - createdTime s) xs))"
    by (rule sorted_sort_key)
  then show ?thesis by (simp add: sorted_map)
qed

text \<open>
  C10, amended to limits that are not negative. For a limit \<open>N\<close> with \<open>0 \<le> N\<close> the
  history query returns at most \<open>N\<close> sessions, all of them when there are fewer; they
  are sessions of the store, each at most as often as it is stored; they are ordered
  newest first; and every session left out is at most as recent as every session
  returned.
\<close>

theorem getDecryptionSessions_newest_first:
  "0 \<le> N \<Longrightarrow>
     (let sessions = map snd store; result = getDecryptionSessions store (Some N) in
        int (length result) \<le> N
      \<and> length result = min (nat N) (length sessions)
      \<and> sorted_wrt (\<lambda>a b. createdTime b \<le> createdTime a) result
      \<and> mset result \<subseteq># mset sessions
      \<and> (\<forall>a\<in>set result. \<forall>b\<in>#mset sessions - mset result. createdTime b \<le> createdTime a))"
proof -
  assume N: "0 \<le> N"
  let ?sorted = "sort_key (\<lambda>s. - createdTime s) (map snd store)"
  let ?result = "take (nat N) ?sorted"
  let ?rest = "drop (nat N) ?sorted"
  have result: "getDecryptionSessions store (Some N) = ?result"
    using N by (rule getDecryptionSessions_take)
  have all: "mset (map snd store) = mset ?result + mset ?rest"
    by (metis mset_sort mset_append append_take_drop_id)
  have len: "length ?result = min (nat N) (length (map snd store))"
    by (simp add: min.commute)
  then have bound: "int (length ?result) \<le> N" using N by linarith
  have "sorted_wrt (\<lambda>a b. createdTime b \<le> createdTime a) (?result @ ?rest)"
    using sorted_newest_first [of "map snd store"] by simp
  then have ordered: "sorted_wrt (\<lambda>a b. createdTime b \<le> createdTime a) ?result"
    and newest: "\<forall>a\<in>set ?result. \<forall>b\<in>set ?rest. createdTime b \<le> createdTime a"
    unfolding sorted_wrt_append by blast+
  from all have sub: "mset ?result \<subseteq># mset (map snd store)"
    and rest: "mset (map snd store) - mset ?result = mset ?rest"
    by simp_all
  from newest rest have "\<forall>a\<in>set ?result. \<forall>b\<in>#mset (map snd store) - mset ?result.
      createdTime b \<le> createdTime a"
    by simp
  with bound len ordered sub show ?thesis
    unfolding Let_def result by blast
qed

lemma example_query:
  "getDecryptionSessions example_store (Some 2)
     = [example_session ''b'' (Some 300), example_session ''d'' (Some 200)]"
  by (simp add: getDecryptionSessions_def array_slice_def example_store_def
      example_session_def createdTime_def)

theorem getDecryptionSessions_newest_first_witness:
  "(0::int) \<le> 2
   \<and> getDecryptionSessions example_store (Some 2)
       = [example_session ''b'' (Some 300), example_session ''d'' (Some 200)]
   \<and> (let sessions = map snd example_store;
          result = getDecryptionSessions example_store (Some 2) in
        int (length result) \<le> 2
      \<and> length result = min (nat 2) (length sessions)
      \<and> sorted_wrt (\<lambda>a b. createdTime b \<le> createdTime a) result
      \<and> mset result \<subseteq># mset sessions
      \<and> (\<forall>a\<in>set result. \<forall>b\<in>#mset sessions - mset result. createdTime b \<le> createdTime a))"
proof -
  have N: "(0::int) \<le> 2" by simp
  from getDecryptionSessions_newest_first [OF N, of example_store] example_query N
  show ?thesis by blast
qed

text \<open>
  With a negative limit \<open>slice(0, limit)\<close> counts from the end: the limit -1 drops the
  oldest session and returns the rest.
\<close>

lemma example_query_negative:
  "getDecryptionSessions example_store (Some (- 1))
     = [example_session ''b'' (Some 300), example_session ''d'' (Some 200),
        example_session ''a'' (Some 100)]"
  by (simp add: getDecryptionSessions_def array_slice_def example_store_def
      example_session_def createdTime_def)

text \<open>
  C10 as stated, for every limit, fails at the limit -1: on the example history the
  query returns three sessions, which is not at most -1.
\<close>

theorem getDecryptionSessions_negative_limit:
  "length (getDecryptionSessions example_store (Some (- 1))) = 3
   \<and> \<not> int (length (getDecryptionSessions example_store (Some (- 1)))) \<le> - 1"
  by (simp add: example_query_negative)

lemma getDecryptionSessions_default:
  "getDecryptionSessions store None = getDecryptionSessions store (Some 10)"
  by (simp add: getDecryptionSessions_def)

section \<open>The literal scenarios of the spec\<close>

text \<open>
  The scenarios that do not go through the runtime, run on the model: the decimal, hex,
  Caesar (\<open>performDecryption_Khoor_auto\<close> above) and ROT13 examples decode to
  \<open>Hello\<close>, and the odd-length hex example is a success.
\<close>

lemma parseInt_72: "parseInt (js ''72'') 0 = Finite 72"
  and parseInt_101: "parseInt (js ''101'') 0 = Finite 101"
  and parseInt_108: "parseInt (js ''108'') 0 = Finite 108"
  and parseInt_111: "parseInt (js ''111'') 0 = Finite 111"
  by (simp_all add: js_def char_class_defs number_defs parseInt_defs)

lemma split_Hello:
  "split (backslash # js ''72'' @ backslash # js ''101'' @ backslash # js ''108''
        @ backslash # js ''108'' @ backslash # js ''111'') backslash
   = [[], js ''72'', js ''101'', js ''108'', js ''108'', js ''111'']"
  by (simp add: js_def backslash_def)

lemma decryptDecimal_Hello:
  "decryptDecimal (backslash # js ''72'' @ backslash # js ''101'' @ backslash # js ''108''
        @ backslash # js ''108'' @ backslash # js ''111'') = Inr (js ''Hello'')"
  unfolding decryptDecimal_def split_Hello
  by (simp add: parseInt_72 parseInt_101 parseInt_108 parseInt_111 fromCharCode_def ToUint16_def)
     (simp add: js_def)

lemma detect_decimal_Hello:
  "detectEncryptionType (backslash # js ''72'' @ backslash # js ''101'' @ backslash # js ''108''
        @ backslash # js ''108'' @ backslash # js ''111'') = ''decimal''"
proof -
  let ?t = "backslash # js ''72'' @ backslash # js ''101'' @ backslash # js ''108''
        @ backslash # js ''108'' @ backslash # js ''111''"
  let ?s = "filter (\<lambda>c. c \<noteq> backslash) ?t"
  have s: "?s = js ''72101108108111''" by (simp add: js_def backslash_def)
  have "backslash \<notin> set ?s" by simp
  then have "test decimal_regex ?s \<longleftrightarrow> ?s \<noteq> [] \<and> list_all isDigit ?s"
    by (rule test_decimal_regex)
  also have "\<dots>" unfolding s by (simp add: js_def isDigit_def)
  finally show ?thesis by (simp add: detectEncryptionType_def)
qed

lemma scenario_decimal:
  "performDecryption P
     (backslash # js ''72'' @ backslash # js ''101'' @ backslash # js ''108''
        @ backslash # js ''108'' @ backslash # js ''111'') ''auto'' None
     = Inr \<lparr>decoded = js ''Hello'', detectedType = ''decimal''\<rparr>"
  by (simp add: performDecryption_def detect_decimal_Hello decryptDecimal_Hello)

lemma scenario_hex:
  "performDecryption P (js ''48656c6c6f'') ''auto'' None
     = Inr \<lparr>decoded = js ''Hello'', detectedType = ''hex''\<rparr>"
  by (simp add: performDecryption_def detect_hello_hex)
     (simp add: decryptHex_def js_def decryptHex_loop.simps substr_def
        char_class_defs number_defs parseInt_defs)

lemma scenario_rot13:
  "performDecryption P (js ''Uryyb'') ''rot13'' None
     = Inr \<lparr>decoded = js ''Hello'', detectedType = ''rot13''\<rparr>"
  by (simp add: performDecryption_def decryptROT13_def decryptCaesar_in_range)
     (simp add: js_def shift_back_def isUpper_def isLower_def)

lemma scenario_hex_odd:
  "performDecryption P (js ''48656c6c6'') ''hex'' None
     = Inr \<lparr>decoded = js ''Hell'' @ [6], detectedType = ''hex''\<rparr>"
  by (simp add: performDecryption_def)
     (simp add: decryptHex_def js_def decryptHex_loop.simps substr_def
        char_class_defs number_defs parseInt_defs)

end
